theory Spec2Isabelle
  imports Complex_Main "HOL-Library.Signed_Division"
begin

section \<open>Data model of \<^verbatim>\<open>qp_solver_sparse.hpp\<close>\<close>

text \<open>
  The solver is a class template over a scalar type and the compile-time dimensions
  \<open>n\<close> (variables) and \<open>m\<close> (constraint rows). The scalar type is modelled by the
  reals, so rounding and NaN are outside the model. A fixed-size Eigen vector is a
  function from the index to the coefficient, read and written below its dimension
  only; a fixed-size matrix is a function of row and column. The C++ \<^verbatim>\<open>int\<close> is
  modelled by \<open>int\<close>; the two places where the C++ has no defined result (the
  increment of the loop counter at \<open>INT_MAX\<close>, and the remainder by zero) are
  outcomes of the model.
\<close>

type_synonym vec = "nat \<Rightarrow> real"
type_synonym mat = "nat \<Rightarrow> nat \<Rightarrow> real"

text \<open>\<^verbatim>\<open>struct QP\<close>: the dimensions are the enum constants of the type.\<close>

record qp_t =
  n :: nat
  m :: nat
  P :: mat
  q :: vec
  A :: mat
  l :: vec
  u :: vec

text \<open>\<^verbatim>\<open>struct qp_sover_settings_t\<close>.\<close>

record settings_t =
  rho :: real
  sigma :: real
  alpha :: real
  eps_rel :: real
  eps_abs :: real
  max_iter :: int
  check_termination :: int
  warm_start :: bool
  adaptive_rho :: bool
  adaptive_rho_tolerance :: real
  adaptive_rho_interval :: int

datatype status_t = SOLVED | MAX_ITER

text \<open>\<^verbatim>\<open>struct qp_solver_info_t\<close>.\<close>

record info_t =
  status :: status_t
  iter :: int
  res_prim :: real
  res_dual :: real

datatype constr_type_t = INEQUALITY_CONSTRAINT | EQUALITY_CONSTRAINT | LOOSE_BOUNDS

text \<open>
  The template parameter \<^verbatim>\<open>LinearSolver\<close> with \<^verbatim>\<open>LinearSolver_UpLo\<close>: an Eigen sparse
  solver, which is not part of this repository. It is a parameter of the model: a
  type \<open>'f\<close> of factorizations with the three operations the solver calls. The
  operations get the dimension of the matrix, which an Eigen sparse matrix carries.
\<close>

record 'f LinearSolver =
  UpLo :: int
  ls_compute :: "nat \<Rightarrow> mat \<Rightarrow> 'f \<Rightarrow> 'f"
  ls_factorize :: "nat \<Rightarrow> mat \<Rightarrow> 'f \<Rightarrow> 'f"
  ls_solve :: "'f \<Rightarrow> vec \<Rightarrow> vec"

text \<open>The members of \<^verbatim>\<open>class QPSolverSparse\<close> (\<^verbatim>\<open>_settings\<close>, \<^verbatim>\<open>_info\<close> and the two
  norm caches lose their leading underscore).\<close>

record 'f solver =
  iter :: int
  x :: vec
  z :: vec
  y :: vec
  x_tilde :: vec
  z_tilde :: vec
  z_prev :: vec
  rho_vec :: vec
  rho_inv_vec :: vec
  rho :: real
  res_prim :: real
  res_dual :: real
  max_Ax_z_norm :: real
  max_Px_ATy_q_norm :: real
  constr_type :: "nat \<Rightarrow> constr_type_t"
  settings :: settings_t
  info :: info_t
  kkt_mat :: mat
  kkt_mat_sparse :: mat
  linear_solver :: 'f

datatype error = IntOverflow | DivByZero

definition INT_MAX :: int where "INT_MAX = 2147483647"

definition RHO_MIN :: real where "RHO_MIN = 1 / 10 ^ 6"
definition RHO_MAX :: real where "RHO_MAX = 10 ^ 6"
definition RHO_TOL :: real where "RHO_TOL = 1 / 10 ^ 4"
definition RHO_EQ_FACTOR :: real where "RHO_EQ_FACTOR = 10 ^ 3"
definition LOOSE_BOUNDS_THRESH :: real where "LOOSE_BOUNDS_THRESH = 10 ^ 16"
definition DIV_BY_ZERO_REGUL :: real where "DIV_BY_ZERO_REGUL = 1 / 10 ^ 10"

section \<open>The Eigen operations the solver uses\<close>

text \<open>\<^verbatim>\<open>Eigen::Lower\<close> and \<^verbatim>\<open>Eigen::Upper\<close> of Eigen's \<^verbatim>\<open>enum UpLoType\<close>.\<close>

definition Eigen_Lower :: int where "Eigen_Lower = 1"
definition Eigen_Upper :: int where "Eigen_Upper = 2"

definition setZero :: vec where
  "setZero = (\<lambda>i. 0)"

text \<open>\<^verbatim>\<open>v.head<k>()\<close> and \<^verbatim>\<open>v.tail<k>()\<close> of a vector of \<open>len\<close> coefficients.\<close>

definition head :: "nat \<Rightarrow> vec \<Rightarrow> vec" where
  "head k v = (\<lambda>i. v i)"

definition tail :: "nat \<Rightarrow> nat \<Rightarrow> vec \<Rightarrow> vec" where
  "tail len k v = (\<lambda>i. v (len - k + i))"

text \<open>\<^verbatim>\<open>v.lpNorm<Eigen::Infinity>()\<close> of a vector of \<open>k\<close> coefficients: the largest
  absolute value, and 0 for the empty vector.\<close>

definition lpNorm_Infinity :: "nat \<Rightarrow> vec \<Rightarrow> real" where
  "lpNorm_Infinity k v = fold (\<lambda>i a. max a \<bar>v i\<bar>) [0..<k] 0"

text \<open>The product of a matrix of \<open>c\<close> columns with a vector, and the transpose.\<close>

definition mat_vec :: "nat \<Rightarrow> mat \<Rightarrow> vec \<Rightarrow> vec" where
  "mat_vec c M v = (\<lambda>i. \<Sum>j\<leftarrow>[0..<c]. M i j * v j)"

definition transpose_mat :: "mat \<Rightarrow> mat" where
  "transpose_mat M = (\<lambda>i j. M j i)"

definition Identity :: mat where
  "Identity = (\<lambda>i j. if i = j then 1 else 0)"

definition asDiagonal :: "vec \<Rightarrow> mat" where
  "asDiagonal v = (\<lambda>i j. if i = j then v i else 0)"

text \<open>Assignment to a block of \<open>r\<close> rows and \<open>c\<close> columns whose top-left corner is
  at \<open>(r0, c0)\<close>: the coefficients outside the block keep their value.\<close>

definition set_block :: "nat \<Rightarrow> nat \<Rightarrow> nat \<Rightarrow> nat \<Rightarrow> mat \<Rightarrow> mat \<Rightarrow> mat" where
  "set_block r0 c0 r c B M =
     (\<lambda>i j. if r0 \<le> i \<and> i < r0 + r \<and> c0 \<le> j \<and> j < c0 + c then B (i - r0) (j - c0) else M i j)"

section \<open>The private member functions\<close>

text \<open>\<^verbatim>\<open>KKT_mat_update\<close>. The test \<^verbatim>\<open>LinearSolver_UpLo == Eigen::Upper|Eigen::Lower\<close>
  is parsed by C++ as \<^verbatim>\<open>(LinearSolver_UpLo == Eigen::Upper) | Eigen::Lower\<close>.\<close>

definition KKT_mat_update :: "'f LinearSolver \<Rightarrow> qp_t \<Rightarrow> 'f solver \<Rightarrow> 'f solver" where
  "KKT_mat_update ops qp s =
     (let d = n qp + m qp;
          k1 = set_block 0 0 (n qp) (n qp)
                 (\<lambda>i j. P qp i j + sigma (settings s) * Identity i j) (kkt_mat s);
          k2 = (if or (of_bool (UpLo ops = Eigen_Upper)) Eigen_Lower \<noteq> 0
                then set_block 0 (d - m qp) (n qp) (m qp) (transpose_mat (A qp)) k1 else k1);
          k3 = set_block (d - m qp) 0 (m qp) (n qp) (A qp) k2;
          k4 = set_block (d - m qp) (d - m qp) (m qp) (m qp)
                 (\<lambda>i j. - 1 * asDiagonal (rho_inv_vec s) i j) k3
      in s\<lparr>kkt_mat := k4, kkt_mat_sparse := k4\<rparr>)"

text \<open>\<^verbatim>\<open>form_KKT_rhs\<close>: the head of \<open>n\<close> and the tail of \<open>m\<close> coefficients of \<open>rhs\<close>.\<close>

definition form_KKT_rhs :: "qp_t \<Rightarrow> 'f solver \<Rightarrow> vec" where
  "form_KKT_rhs qp s =
     (\<lambda>i. if i < n qp then sigma (settings s) * x s i - q qp i
          else z s (i - n qp) - rho_inv_vec s (i - n qp) * y s (i - n qp))"

text \<open>\<^verbatim>\<open>box_projection\<close>: \<^verbatim>\<open>z.cwiseMax(l).cwiseMin(u)\<close>.\<close>

definition box_projection :: "vec \<Rightarrow> vec \<Rightarrow> vec \<Rightarrow> vec" where
  "box_projection v lo up = (\<lambda>i. min (max (v i) (lo i)) (up i))"

text \<open>\<^verbatim>\<open>constr_type_init\<close>: the loop over the rows writes one entry each.\<close>

definition constr_type_init :: "qp_t \<Rightarrow> 'f solver \<Rightarrow> 'f solver" where
  "constr_type_init qp s =
     s\<lparr>constr_type :=
         fold (\<lambda>i ct. ct(i :=
                 (if l qp i < - LOOSE_BOUNDS_THRESH \<and> u qp i > LOOSE_BOUNDS_THRESH then LOOSE_BOUNDS
                  else if u qp i - l qp i < RHO_TOL then EQUALITY_CONSTRAINT
                  else INEQUALITY_CONSTRAINT)))
              [0..<m qp] (constr_type s)\<rparr>"

text \<open>\<^verbatim>\<open>rho_update\<close>, for a solver of \<open>k\<close> rows.\<close>

definition rho_update' :: "nat \<Rightarrow> real \<Rightarrow> 'f solver \<Rightarrow> 'f solver" where
  "rho_update' k rho0 s =
     (let rv = fold (\<lambda>i rv. rv(i :=
                 (case constr_type s i of
                    LOOSE_BOUNDS \<Rightarrow> RHO_MIN
                  | EQUALITY_CONSTRAINT \<Rightarrow> RHO_EQ_FACTOR * rho0
                  | INEQUALITY_CONSTRAINT \<Rightarrow> rho0)))
              [0..<k] (rho_vec s)
      in s\<lparr>rho_vec := rv, rho_inv_vec := (\<lambda>i. 1 / rv i), rho := rho0\<rparr>)"

definition residual_prim :: "qp_t \<Rightarrow> 'f solver \<Rightarrow> real" where
  "residual_prim qp s = lpNorm_Infinity (m qp) (\<lambda>i. mat_vec (n qp) (A qp) (x s) i - z s i)"

definition residual_dual :: "qp_t \<Rightarrow> 'f solver \<Rightarrow> real" where
  "residual_dual qp s =
     lpNorm_Infinity (n qp)
       (\<lambda>i. mat_vec (n qp) (P qp) (x s) i + q qp i + mat_vec (m qp) (transpose_mat (A qp)) (y s) i)"

definition update_state :: "qp_t \<Rightarrow> 'f solver \<Rightarrow> 'f solver" where
  "update_state qp s =
     (let norm_Ax = lpNorm_Infinity (m qp) (mat_vec (n qp) (A qp) (x s));
          norm_z = lpNorm_Infinity (m qp) (z s);
          s = s\<lparr>max_Ax_z_norm := max norm_Ax norm_z\<rparr>;
          norm_Px = lpNorm_Infinity (n qp) (mat_vec (n qp) (P qp) (x s));
          norm_ATy = lpNorm_Infinity (n qp) (mat_vec (m qp) (transpose_mat (A qp)) (y s));
          norm_q = lpNorm_Infinity (n qp) (q qp);
          s = s\<lparr>max_Px_ATy_q_norm := max norm_Px (max norm_ATy norm_q)\<rparr>;
          s = s\<lparr>info := (info s)\<lparr>info_t.res_prim := residual_prim qp s\<rparr>\<rparr>;
          s = s\<lparr>info := (info s)\<lparr>info_t.res_dual := residual_dual qp s\<rparr>\<rparr>
      in s)"

definition rho_estimate :: "real \<Rightarrow> qp_t \<Rightarrow> 'f solver \<Rightarrow> real" where
  "rho_estimate rho0 qp s =
     (let rp_norm = info_t.res_prim (info s) / (max_Ax_z_norm s + DIV_BY_ZERO_REGUL);
          rd_norm = info_t.res_dual (info s) / (max_Px_ATy_q_norm s + DIV_BY_ZERO_REGUL);
          rho_new = rho0 * sqrt (rp_norm / (rd_norm + DIV_BY_ZERO_REGUL))
      in rho_new)"

definition eps_prim :: "qp_t \<Rightarrow> 'f solver \<Rightarrow> real" where
  "eps_prim qp s =
     (let norm_Ax = lpNorm_Infinity (m qp) (mat_vec (n qp) (A qp) (x s));
          norm_z = lpNorm_Infinity (m qp) (z s)
      in eps_abs (settings s) + eps_rel (settings s) * max norm_Ax norm_z)"

definition eps_dual :: "qp_t \<Rightarrow> 'f solver \<Rightarrow> real" where
  "eps_dual qp s =
     (let norm_Px = lpNorm_Infinity (n qp) (mat_vec (n qp) (P qp) (x s));
          norm_ATy = lpNorm_Infinity (n qp) (mat_vec (m qp) (transpose_mat (A qp)) (y s));
          norm_q = lpNorm_Infinity (n qp) (q qp)
      in eps_abs (settings s) + eps_rel (settings s) * max norm_Px (max norm_ATy norm_q))"

definition termination_criteria :: "qp_t \<Rightarrow> 'f solver \<Rightarrow> bool" where
  "termination_criteria qp s =
     (if info_t.res_prim (info s) \<le> eps_prim qp s \<and> info_t.res_dual (info s) \<le> eps_dual qp s
      then True else False)"

section \<open>\<^verbatim>\<open>solve\<close>\<close>

text \<open>Lines 147 to 164 of the loop body: the update of \<open>x_tilde\<close>, \<open>z_tilde\<close>, \<open>x\<close>,
  \<open>z\<close> and \<open>y\<close>, one assignment after the other.\<close>

definition admm_update :: "'f LinearSolver \<Rightarrow> qp_t \<Rightarrow> 'f solver \<Rightarrow> 'f solver" where
  "admm_update ops qp s =
     (let s = s\<lparr>z_prev := z s\<rparr>;
          rhs = form_KKT_rhs qp s;
          x_tilde_nu = ls_solve ops (linear_solver s) rhs;
          s = s\<lparr>x_tilde := head (n qp) x_tilde_nu\<rparr>;
          s = s\<lparr>z_tilde := (\<lambda>i. z_prev s i
                 + rho_inv_vec s i * (tail (n qp + m qp) (m qp) x_tilde_nu i - y s i))\<rparr>;
          s = s\<lparr>x := (\<lambda>i. alpha (settings s) * x_tilde s i + (1 - alpha (settings s)) * x s i)\<rparr>;
          s = s\<lparr>z := (\<lambda>i. alpha (settings s) * z_tilde s i + (1 - alpha (settings s)) * z_prev s i
                 + rho_inv_vec s i * y s i)\<rparr>;
          s = s\<lparr>z := box_projection (z s) (l qp) (u qp)\<rparr>;
          s = s\<lparr>y := (\<lambda>i. y s i + rho_vec s i
                 * (alpha (settings s) * z_tilde s i + (1 - alpha (settings s)) * z_prev s i - z s i))\<rparr>
      in s)"

text \<open>Lines 184 to 199: the adaptation of \<open>rho\<close>, entered when \<^verbatim>\<open>adaptive_rho\<close> is set.
  The remainder by an interval of 0 has no defined result.\<close>

definition adapt_rho :: "'f LinearSolver \<Rightarrow> qp_t \<Rightarrow> bool \<Rightarrow> 'f solver \<Rightarrow> error + 'f solver" where
  "adapt_rho ops qp chk s =
     (if adaptive_rho_interval (settings s) = 0 then Inl DivByZero
      else if iter s smod adaptive_rho_interval (settings s) = 0 then
        (let s = (if \<not> chk then update_state qp s else s);
             new_rho = rho_estimate (rho s) qp s;
             new_rho = max RHO_MIN (min new_rho RHO_MAX)
         in if new_rho < rho s / adaptive_rho_tolerance (settings s)
               \<or> new_rho > rho s * adaptive_rho_tolerance (settings s)
            then (let s = rho_update' (m qp) new_rho s;
                      s = KKT_mat_update ops qp s;
                      s = s\<lparr>linear_solver :=
                            ls_factorize ops (n qp + m qp) (kkt_mat_sparse s) (linear_solver s)\<rparr>
                  in Inr s)
            else Inr s)
      else Inr s)"

text \<open>One pass through the loop body. The boolean of the result says whether the
  pass left the loop by \<^verbatim>\<open>break\<close>.\<close>

definition iteration :: "'f LinearSolver \<Rightarrow> qp_t \<Rightarrow> 'f solver \<Rightarrow> error + ('f solver \<times> bool)" where
  "iteration ops qp s =
     (let s = admm_update ops qp s;
          chk = (if check_termination (settings s) \<noteq> 0
                    \<and> iter s smod check_termination (settings s) = 0 then True else False);
          s = (if chk then update_state qp s else s)
      in if chk \<and> termination_criteria qp s
         then Inr (s\<lparr>info := (info s)\<lparr>status := SOLVED\<rparr>\<rparr>, True)
         else if adaptive_rho (settings s)
         then (case adapt_rho ops qp chk s of Inl e \<Rightarrow> Inl e | Inr s \<Rightarrow> Inr (s, False))
         else Inr (s, False))"

text \<open>The \<^verbatim>\<open>for\<close> loop, entered with \<open>iter\<close> set: the test, the body, and the
  increment of \<open>iter\<close>, which has no defined result at \<open>INT_MAX\<close>.\<close>

function solve_loop :: "'f LinearSolver \<Rightarrow> qp_t \<Rightarrow> 'f solver \<Rightarrow> error + 'f solver" where
  "solve_loop ops qp s =
     (if iter s \<le> max_iter (settings s) then
        (case iteration ops qp s of
           Inl e \<Rightarrow> Inl e
         | Inr (t, brk) \<Rightarrow>
             if brk then Inr t
             else if iter t = INT_MAX then Inl IntOverflow
             else solve_loop ops qp (t\<lparr>iter := iter t + 1\<rparr>))
      else Inr s)"
  by pat_completeness auto
termination
proof (relation "measure (\<lambda>(ops, qp, s). nat (max_iter (settings s) + 1 - iter s))")
  show "wf (measure (\<lambda>(ops, qp, s). nat (max_iter (settings s) + 1 - iter s)))"
    by simp
next
  fix ops :: "'f LinearSolver" and qp s and r :: "'f solver \<times> bool" and t brk
  assume le: "iter s \<le> max_iter (settings s)"
    and it: "iteration ops qp s = Inr r" and r: "(t, brk) = r"
  have us: "iter (update_state qp a) = iter a \<and> settings (update_state qp a) = settings a"
    for a :: "'f solver"
    by (simp add: update_state_def Let_def)
  have ru: "iter (rho_update' k c a) = iter a \<and> settings (rho_update' k c a) = settings a"
    for a :: "'f solver" and k c
    by (simp add: rho_update'_def Let_def)
  have kk: "iter (KKT_mat_update ops qp a) = iter a
      \<and> settings (KKT_mat_update ops qp a) = settings a"
    for a :: "'f solver"
    by (simp add: KKT_mat_update_def Let_def)
  have au: "iter (admm_update ops qp a) = iter a \<and> settings (admm_update ops qp a) = settings a"
    for a :: "'f solver"
    by (simp add: admm_update_def Let_def)
  have ar: "iter b = iter a \<and> settings b = settings a"
    if "adapt_rho ops qp c a = Inr b" for a b :: "'f solver" and c
    using that by (auto simp: adapt_rho_def Let_def us ru kk split: if_splits)
  from it r have "iter t = iter s \<and> settings t = settings s"
    by (auto simp: iteration_def Let_def us au split: if_splits sum.splits dest: ar)
  with le
  show "((ops, qp, t\<lparr>iter := iter t + 1\<rparr>), (ops, qp, s))
          \<in> measure (\<lambda>(ops, qp, s). nat (max_iter (settings s) + 1 - iter s))"
    by simp
qed

text \<open>\<^verbatim>\<open>solve\<close>, in two parts. Lines 134 to 144, before the loop:\<close>

definition solve_setup :: "'f LinearSolver \<Rightarrow> qp_t \<Rightarrow> 'f solver \<Rightarrow> 'f solver" where
  "solve_setup ops qp s =
     (let s = (if \<not> warm_start (settings s) then s\<lparr>x := setZero, z := setZero, y := setZero\<rparr> else s);
          s = constr_type_init qp s;
          s = rho_update' (m qp) (settings_t.rho (settings s)) s;
          s = KKT_mat_update ops qp s;
          s = s\<lparr>linear_solver := ls_compute ops (n qp + m qp) (kkt_mat_sparse s) (linear_solver s)\<rparr>
      in s)"

text \<open>The whole of \<^verbatim>\<open>solve\<close>: the set-up, the loop from \<open>iter = 1\<close>, and lines 202 to 205.\<close>

definition solve :: "'f LinearSolver \<Rightarrow> qp_t \<Rightarrow> 'f solver \<Rightarrow> error + 'f solver" where
  "solve ops qp s =
     (case solve_loop ops qp ((solve_setup ops qp s)\<lparr>iter := 1\<rparr>) of
        Inl e \<Rightarrow> Inl e
      | Inr s \<Rightarrow>
          (let s = (if iter s > max_iter (settings s)
                    then s\<lparr>info := (info s)\<lparr>status := MAX_ITER\<rparr>\<rparr> else s)
           in Inr (s\<lparr>info := (info s)\<lparr>info_t.iter := iter s\<rparr>\<rparr>)))"

section \<open>Concrete inputs\<close>

text \<open>The default member initialisers of \<^verbatim>\<open>qp_sover_settings_t\<close>.\<close>

definition default_settings :: settings_t where
  "default_settings =
     \<lparr>settings_t.rho = 1 / 10, sigma = 1 / 10 ^ 6, alpha = 1, eps_rel = 1 / 10 ^ 3, eps_abs = 1 / 10 ^ 3,
      max_iter = 1000, check_termination = 25, warm_start = False, adaptive_rho = False,
      adaptive_rho_tolerance = 5, adaptive_rho_interval = 25\<rparr>"

text \<open>A linear solver for \<open>n = m = 1\<close>: it keeps the matrix as its factorization and
  solves the symmetric 2 by 2 system by Cramer's rule, reading the lower triangle.\<close>

definition ex_ops :: "mat LinearSolver" where
  "ex_ops =
     \<lparr>UpLo = Eigen_Lower,
      ls_compute = (\<lambda>d M f. M),
      ls_factorize = (\<lambda>d M f. M),
      ls_solve = (\<lambda>M b i.
        if i = 0 then (b 0 * M 1 1 - M 1 0 * b 1) / (M 0 0 * M 1 1 - M 1 0 * M 1 0)
        else if i = 1 then (M 0 0 * b 1 - M 1 0 * b 0) / (M 0 0 * M 1 1 - M 1 0 * M 1 0)
        else 0)\<rparr>"

text \<open>Minimise \<open>x\<^sup>2 / 2 - x\<close> subject to \<open>lo \<le> x \<le> up\<close>.\<close>

definition ex_qp :: "real \<Rightarrow> real \<Rightarrow> qp_t" where
  "ex_qp lo up =
     \<lparr>n = 1, m = 1, P = (\<lambda>i j. 1), q = (\<lambda>i. - 1), A = (\<lambda>i j. 1), l = (\<lambda>i. lo), u = (\<lambda>i. up)\<rparr>"

text \<open>A solver as the constructor leaves it (\<open>x\<close>, \<open>z\<close>, \<open>y\<close> zero), the other
  members at a fixed value, with the settings \<open>stg\<close>.\<close>

definition ex_solver :: "settings_t \<Rightarrow> mat solver" where
  "ex_solver stg =
     \<lparr>iter = 0, x = setZero, z = setZero, y = setZero,
      x_tilde = setZero, z_tilde = setZero, z_prev = setZero,
      rho_vec = setZero, rho_inv_vec = setZero, rho = 0,
      res_prim = 0, res_dual = 0, max_Ax_z_norm = 0, max_Px_ATy_q_norm = 0,
      constr_type = (\<lambda>i. INEQUALITY_CONSTRAINT),
      settings = stg,
      info = \<lparr>status = SOLVED, info_t.iter = 0, info_t.res_prim = 7, info_t.res_dual = 7\<rparr>,
      kkt_mat = (\<lambda>i j. 0), kkt_mat_sparse = (\<lambda>i j. 0), linear_solver = (\<lambda>i j. 0)\<rparr>"

text \<open>Settings with round numbers, a check of the termination criterion at every
  iteration and a wide absolute tolerance.\<close>

definition ex_settings :: settings_t where
  "ex_settings =
     \<lparr>settings_t.rho = 1, sigma = 1, alpha = 1, eps_rel = 0, eps_abs = 10,
      max_iter = 5, check_termination = 1, warm_start = False, adaptive_rho = False,
      adaptive_rho_tolerance = 5, adaptive_rho_interval = 1\<rparr>"

text \<open>The state in which the loop is left by \<^verbatim>\<open>break\<close>: the status is set, the check
  was due at this iteration, and the stored residuals are those of the iterates and
  pass the test.\<close>

definition fired :: "qp_t \<Rightarrow> 'f solver \<Rightarrow> bool" where
  "fired qp t \<longleftrightarrow>
     status (info t) = SOLVED
     \<and> check_termination (settings t) \<noteq> 0
     \<and> check_termination (settings t) dvd iter t
     \<and> info_t.res_prim (info t) = residual_prim qp t
     \<and> info_t.res_dual (info t) = residual_dual qp t
     \<and> termination_criteria qp t"

section \<open>Auxiliary facts\<close>

declare solve_loop.simps [simp del]

lemma smod_int_eq_0_iff: "(a::int) smod b = 0 \<longleftrightarrow> b dvd a"
  by (auto simp: signed_modulo_int_def sgn_if dvd_eq_mod_eq_0 [symmetric])

lemma fold_fun_upd_upt:
  "fold (\<lambda>i f. f(i := g i)) [0..<k] f0 = (\<lambda>i. if i < k then g i else f0 i)"
  by (induction k) (auto simp: fun_eq_iff)

lemma constr_type_init_apply:
  "constr_type (constr_type_init qp s) i =
     (if i < m qp then
        (if l qp i < - LOOSE_BOUNDS_THRESH \<and> u qp i > LOOSE_BOUNDS_THRESH then LOOSE_BOUNDS
         else if u qp i - l qp i < RHO_TOL then EQUALITY_CONSTRAINT
         else INEQUALITY_CONSTRAINT)
      else constr_type s i)"
  by (simp add: constr_type_init_def fold_fun_upd_upt)

lemma rho_update_rho_vec:
  "rho_vec (rho_update' k rho0 s) i =
     (if i < k then
        (case constr_type s i of
           LOOSE_BOUNDS \<Rightarrow> RHO_MIN
         | EQUALITY_CONSTRAINT \<Rightarrow> RHO_EQ_FACTOR * rho0
         | INEQUALITY_CONSTRAINT \<Rightarrow> rho0)
      else rho_vec s i)"
  by (simp add: rho_update'_def Let_def fold_fun_upd_upt)

lemma rho_update_rho_inv_vec:
  "rho_inv_vec (rho_update' k rho0 s) i = 1 / rho_vec (rho_update' k rho0 s) i"
  by (simp add: rho_update'_def Let_def)

lemma rho_update_rho: "rho (rho_update' k rho0 s) = rho0"
  by (simp add: rho_update'_def Let_def)

lemma solve_loop_invariant:
  assumes "solve_loop ops qp s = Inr t" and "I s"
    and "\<And>a b brk. I a \<Longrightarrow> iteration ops qp a = Inr (b, brk) \<Longrightarrow> I b"
    and "\<And>a. I a \<Longrightarrow> I (a\<lparr>iter := iter a + 1\<rparr>)"
  shows "I t"
  using assms
proof (induction ops qp s rule: solve_loop.induct)
  case (1 ops qp s)
  show ?case
  proof (cases "iter s \<le> max_iter (settings s)")
    case False
    with "1.prems"(1,2) show ?thesis
      by (simp add: solve_loop.simps [of ops qp s])
  next
    case True
    with "1.prems"(1) obtain b brk where it: "iteration ops qp s = Inr (b, brk)"
      by (auto simp: solve_loop.simps [of ops qp s] split: sum.splits)
    then have Ib: "I b" using "1.prems"(2,3) by blast
    show ?thesis
    proof (cases brk)
      case True
      with \<open>iter s \<le> max_iter (settings s)\<close> it "1.prems"(1) Ib show ?thesis
        by (simp add: solve_loop.simps [of ops qp s])
    next
      case False
      with \<open>iter s \<le> max_iter (settings s)\<close> it "1.prems"(1)
      have ne: "iter b \<noteq> INT_MAX" and rec: "solve_loop ops qp (b\<lparr>iter := iter b + 1\<rparr>) = Inr t"
        by (auto simp: solve_loop.simps [of ops qp s] split: if_splits)
      from Ib "1.prems"(4) have "I (b\<lparr>iter := iter b + 1\<rparr>)" by blast
      with "1.IH" [OF \<open>iter s \<le> max_iter (settings s)\<close> it refl False ne rec] "1.prems"(3,4)
      show ?thesis by blast
    qed
  qed
qed

text \<open>What each member function leaves unchanged.\<close>

lemma update_state_frame [simp]:
  "iter (update_state qp s) = iter s" "settings (update_state qp s) = settings s"
  "x (update_state qp s) = x s" "z (update_state qp s) = z s" "y (update_state qp s) = y s"
  "rho (update_state qp s) = rho s" "rho_vec (update_state qp s) = rho_vec s"
  "rho_inv_vec (update_state qp s) = rho_inv_vec s"
  "constr_type (update_state qp s) = constr_type s"
  "kkt_mat (update_state qp s) = kkt_mat s" "kkt_mat_sparse (update_state qp s) = kkt_mat_sparse s"
  "linear_solver (update_state qp s) = linear_solver s"
  "status (info (update_state qp s)) = status (info s)"
  by (simp_all add: update_state_def Let_def)

lemma rho_update_frame [simp]:
  "iter (rho_update' k r s) = iter s" "settings (rho_update' k r s) = settings s"
  "x (rho_update' k r s) = x s" "z (rho_update' k r s) = z s" "y (rho_update' k r s) = y s"
  "constr_type (rho_update' k r s) = constr_type s" "info (rho_update' k r s) = info s"
  "kkt_mat (rho_update' k r s) = kkt_mat s" "linear_solver (rho_update' k r s) = linear_solver s"
  by (simp_all add: rho_update'_def Let_def)

lemma KKT_mat_update_frame [simp]:
  "iter (KKT_mat_update ops qp s) = iter s" "settings (KKT_mat_update ops qp s) = settings s"
  "x (KKT_mat_update ops qp s) = x s" "z (KKT_mat_update ops qp s) = z s"
  "y (KKT_mat_update ops qp s) = y s"
  "rho (KKT_mat_update ops qp s) = rho s" "rho_vec (KKT_mat_update ops qp s) = rho_vec s"
  "rho_inv_vec (KKT_mat_update ops qp s) = rho_inv_vec s"
  "constr_type (KKT_mat_update ops qp s) = constr_type s"
  "info (KKT_mat_update ops qp s) = info s"
  "linear_solver (KKT_mat_update ops qp s) = linear_solver s"
  "kkt_mat_sparse (KKT_mat_update ops qp s) = kkt_mat (KKT_mat_update ops qp s)"
  by (simp_all add: KKT_mat_update_def Let_def)

lemma admm_update_frame [simp]:
  "iter (admm_update ops qp s) = iter s" "settings (admm_update ops qp s) = settings s"
  "rho (admm_update ops qp s) = rho s" "rho_vec (admm_update ops qp s) = rho_vec s"
  "rho_inv_vec (admm_update ops qp s) = rho_inv_vec s"
  "constr_type (admm_update ops qp s) = constr_type s" "info (admm_update ops qp s) = info s"
  "kkt_mat (admm_update ops qp s) = kkt_mat s"
  "kkt_mat_sparse (admm_update ops qp s) = kkt_mat_sparse s"
  "linear_solver (admm_update ops qp s) = linear_solver s"
  by (simp_all add: admm_update_def Let_def)

lemma adapt_rho_frame:
  assumes "adapt_rho ops qp chk s = Inr t"
  shows "iter t = iter s" and "settings t = settings s"
    and "x t = x s" and "z t = z s" and "y t = y s" and "constr_type t = constr_type s"
    and "status (info t) = status (info s)"
  using assms
  by (auto simp: adapt_rho_def Let_def split: if_splits)

lemma iteration_frame:
  assumes "iteration ops qp s = Inr (t, brk)"
  shows "iter t = iter s" and "settings t = settings s"
    and "x t = x (admm_update ops qp s)" and "z t = z (admm_update ops qp s)"
    and "y t = y (admm_update ops qp s)" and "constr_type t = constr_type s"
  using assms
  by (auto simp: iteration_def Let_def split: if_splits sum.splits dest: adapt_rho_frame)

lemma UpLo_test: "or (of_bool (a = Eigen_Upper)) Eigen_Lower \<noteq> (0::int)"
  by (simp add: Eigen_Lower_def or_eq_0_iff)

lemma KKT_mat_update_apply:
  "kkt_mat (KKT_mat_update ops qp s) i j =
     (if i < n qp then
        (if j < n qp then P qp i j + sigma (settings s) * Identity i j
         else if j < n qp + m qp then A qp (j - n qp) i
         else kkt_mat s i j)
      else if i < n qp + m qp then
        (if j < n qp then A qp (i - n qp) j
         else if j < n qp + m qp then - asDiagonal (rho_inv_vec s) (i - n qp) (j - n qp)
         else kkt_mat s i j)
      else kkt_mat s i j)"
  by (auto simp: KKT_mat_update_def Let_def set_block_def UpLo_test transpose_mat_def)

lemma admm_update_fields:
  "z_prev (admm_update ops qp s) = z s"
  "x_tilde (admm_update ops qp s) = head (n qp) (ls_solve ops (linear_solver s) (form_KKT_rhs qp s))"
  "z_tilde (admm_update ops qp s) =
     (\<lambda>i. z s i + rho_inv_vec s i
        * (tail (n qp + m qp) (m qp) (ls_solve ops (linear_solver s) (form_KKT_rhs qp s)) i - y s i))"
  "x (admm_update ops qp s) =
     (\<lambda>i. alpha (settings s) * x_tilde (admm_update ops qp s) i + (1 - alpha (settings s)) * x s i)"
  "z (admm_update ops qp s) =
     box_projection
       (\<lambda>i. alpha (settings s) * z_tilde (admm_update ops qp s) i + (1 - alpha (settings s)) * z s i
             + rho_inv_vec s i * y s i) (l qp) (u qp)"
  "y (admm_update ops qp s) =
     (\<lambda>i. y s i + rho_vec s i
        * (alpha (settings s) * z_tilde (admm_update ops qp s) i + (1 - alpha (settings s)) * z s i
           - z (admm_update ops qp s) i))"
  by (simp_all add: admm_update_def Let_def form_KKT_rhs_def cong: if_cong)

lemma constr_type_init_frame [simp]:
  "iter (constr_type_init qp s) = iter s" "settings (constr_type_init qp s) = settings s"
  "x (constr_type_init qp s) = x s" "z (constr_type_init qp s) = z s"
  "y (constr_type_init qp s) = y s" "rho_vec (constr_type_init qp s) = rho_vec s"
  "info (constr_type_init qp s) = info s" "kkt_mat (constr_type_init qp s) = kkt_mat s"
  "linear_solver (constr_type_init qp s) = linear_solver s"
  by (simp_all add: constr_type_init_def)

lemma solve_setup_fields:
  "x (solve_setup ops qp s) = (if warm_start (settings s) then x s else setZero)"
  "z (solve_setup ops qp s) = (if warm_start (settings s) then z s else setZero)"
  "y (solve_setup ops qp s) = (if warm_start (settings s) then y s else setZero)"
  "constr_type (solve_setup ops qp s) = constr_type (constr_type_init qp s)"
  "rho (solve_setup ops qp s) = settings_t.rho (settings s)"
  "rho_vec (solve_setup ops qp s)
     = rho_vec (rho_update' (m qp) (settings_t.rho (settings s)) (constr_type_init qp s))"
  "rho_inv_vec (solve_setup ops qp s) = (\<lambda>i. 1 / rho_vec (solve_setup ops qp s) i)"
  "info (solve_setup ops qp s) = info s"
  "iter (solve_setup ops qp s) = iter s"
  "kkt_mat_sparse (solve_setup ops qp s) = kkt_mat (solve_setup ops qp s)"
  "linear_solver (solve_setup ops qp s)
     = ls_compute ops (n qp + m qp) (kkt_mat (solve_setup ops qp s)) (linear_solver s)"
  by (simp_all add: solve_setup_def Let_def constr_type_init_def rho_update'_def
        KKT_mat_update_def cong: if_cong constr_type_t.case_cong)

lemma solve_setup_kkt_mat:
  "kkt_mat (solve_setup ops qp s) i j =
     (if i < n qp then
        (if j < n qp then P qp i j + sigma (settings s) * Identity i j
         else if j < n qp + m qp then A qp (j - n qp) i
         else kkt_mat s i j)
      else if i < n qp + m qp then
        (if j < n qp then A qp (i - n qp) j
         else if j < n qp + m qp
         then - asDiagonal (rho_inv_vec (solve_setup ops qp s)) (i - n qp) (j - n qp)
         else kkt_mat s i j)
      else kkt_mat s i j)"
proof -
  let ?a = "rho_update' (m qp) (settings_t.rho (settings s))
     (constr_type_init qp (if \<not> warm_start (settings s)
        then s\<lparr>x := setZero, z := setZero, y := setZero\<rparr> else s))"
  have 1: "kkt_mat (solve_setup ops qp s) = kkt_mat (KKT_mat_update ops qp ?a)"
    by (simp add: solve_setup_def Let_def)
  have 2: "rho_inv_vec (solve_setup ops qp s) = rho_inv_vec ?a"
    by (simp add: solve_setup_def Let_def)
  have 3: "kkt_mat ?a = kkt_mat s" "settings ?a = settings s"
    by (simp_all add: constr_type_init_def)
  show ?thesis
    unfolding 1 2 KKT_mat_update_apply 3 ..
qed


text \<open>When the loop body and the loop return.\<close>

lemma adapt_rho_total:
  "adaptive_rho_interval (settings s) \<noteq> 0 \<Longrightarrow> \<exists>t. adapt_rho ops qp chk s = Inr t"
  by (simp add: adapt_rho_def Let_def)

lemma iteration_total:
  assumes "adaptive_rho (settings s) \<longrightarrow> adaptive_rho_interval (settings s) \<noteq> 0"
  shows "\<exists>t brk. iteration ops qp s = Inr (t, brk)"
proof -
  let ?a = "admm_update ops qp s"
  let ?chk = "check_termination (settings s) \<noteq> 0 \<and> iter s smod check_termination (settings s) = 0"
  let ?b = "if ?chk then update_state qp ?a else ?a"
  have "settings ?b = settings s" by simp
  with assms have "adaptive_rho (settings ?b) \<longrightarrow> (\<exists>t. adapt_rho ops qp ?chk ?b = Inr t)"
    using adapt_rho_total [of ?b ops qp ?chk] by auto
  then show ?thesis
    by (auto simp: iteration_def Let_def)
qed

lemma solve_loop_total:
  assumes "max_iter (settings s) < INT_MAX"
    and "adaptive_rho (settings s) \<longrightarrow> adaptive_rho_interval (settings s) \<noteq> 0"
  shows "\<exists>t. solve_loop ops qp s = Inr t"
  using assms
proof (induction ops qp s rule: solve_loop.induct)
  case (1 ops qp s)
  show ?case
  proof (cases "iter s \<le> max_iter (settings s)")
    case False
    then show ?thesis by (simp add: solve_loop.simps [of ops qp s])
  next
    case True
    from iteration_total [OF "1.prems"(2)]
    obtain b brk where it: "iteration ops qp s = Inr (b, brk)" by blast
    note fr = iteration_frame(1,2) [OF it]
    show ?thesis
    proof (cases brk)
      case True
      with \<open>iter s \<le> max_iter (settings s)\<close> it show ?thesis
        by (simp add: solve_loop.simps [of ops qp s])
    next
      case False
      from fr True "1.prems"(1) have ne: "iter b \<noteq> INT_MAX" by simp
      from "1.IH" [OF True it refl False ne] fr "1.prems"
      obtain t where "solve_loop ops qp (b\<lparr>iter := iter b + 1\<rparr>) = Inr t" by auto
      with True it False ne show ?thesis
        by (simp add: solve_loop.simps [of ops qp s])
    qed
  qed
qed

lemma solve_setup_settings [simp]: "settings (solve_setup ops qp s) = settings s"
  by (simp add: solve_setup_def Let_def constr_type_init_def)

lemma solve_total:
  assumes "max_iter (settings s) < INT_MAX"
    and "adaptive_rho (settings s) \<longrightarrow> adaptive_rho_interval (settings s) \<noteq> 0"
  shows "\<exists>t. solve ops qp s = Inr t"
proof -
  from assms obtain r where "solve_loop ops qp ((solve_setup ops qp s)\<lparr>iter := 1\<rparr>) = Inr r"
    using solve_loop_total [of "(solve_setup ops qp s)\<lparr>iter := 1\<rparr>" ops qp] by auto
  then show ?thesis by (simp add: solve_def Let_def)
qed

text \<open>How the loop is left.\<close>

lemma update_state_res:
  "info_t.res_prim (info (update_state qp s)) = residual_prim qp s"
  "info_t.res_dual (info (update_state qp s)) = residual_dual qp s"
  by (simp_all add: update_state_def Let_def residual_prim_def residual_dual_def)

lemma iteration_break:
  assumes "iteration ops qp s = Inr (t, True)"
  shows "fired qp t"
proof -
  let ?b = "update_state qp (admm_update ops qp s)"
  from assms have chk: "check_termination (settings s) \<noteq> 0"
      "iter s smod check_termination (settings s) = 0"
    and tc: "termination_criteria qp ?b"
    and t: "t = ?b\<lparr>info := (info ?b)\<lparr>status := SOLVED\<rparr>\<rparr>"
    by (auto simp: iteration_def Let_def split: if_splits sum.splits)
  have "info_t.res_prim (info t) = residual_prim qp t"
    by (simp add: t update_state_res) (simp add: residual_prim_def)
  moreover have "info_t.res_dual (info t) = residual_dual qp t"
    by (simp add: t update_state_res) (simp add: residual_dual_def)
  moreover from tc have "termination_criteria qp t"
    by (simp add: t termination_criteria_def eps_prim_def eps_dual_def)
  ultimately show ?thesis
    using chk by (simp add: fired_def t smod_int_eq_0_iff)
qed

lemma solve_loop_exit:
  assumes "solve_loop ops qp s = Inr t"
  shows "settings t = settings s
     \<and> (iter t = max (iter s) (max_iter (settings s) + 1)
        \<or> iter s \<le> iter t \<and> iter t \<le> max_iter (settings s) \<and> fired qp t)"
  using assms
proof (induction ops qp s rule: solve_loop.induct)
  case (1 ops qp s)
  show ?case
  proof (cases "iter s \<le> max_iter (settings s)")
    case False
    with "1.prems" show ?thesis
      by (simp add: solve_loop.simps [of ops qp s])
  next
    case True
    with "1.prems" obtain b brk where it: "iteration ops qp s = Inr (b, brk)"
      by (auto simp: solve_loop.simps [of ops qp s] split: sum.splits)
    note fr = iteration_frame(1,2) [OF it]
    show ?thesis
    proof (cases brk)
      case brk: True
      with True it "1.prems" have "t = b" by (simp add: solve_loop.simps [of ops qp s])
      with it brk iteration_break [of ops qp s t] fr True show ?thesis by simp
    next
      case False
      with True it "1.prems"
      have ne: "iter b \<noteq> INT_MAX" and rec: "solve_loop ops qp (b\<lparr>iter := iter b + 1\<rparr>) = Inr t"
        by (auto simp: solve_loop.simps [of ops qp s] split: if_splits)
      from "1.IH" [OF True it refl False ne rec] fr True show ?thesis by auto
    qed
  qed
qed


lemma solve_cases:
  assumes "solve ops qp s = Inr t"
  obtains r where "solve_loop ops qp ((solve_setup ops qp s)\<lparr>iter := 1\<rparr>) = Inr r"
    and "t = (if iter r > max_iter (settings r)
              then r\<lparr>info := (info r)\<lparr>status := MAX_ITER, info_t.iter := iter r\<rparr>\<rparr>
              else r\<lparr>info := (info r)\<lparr>info_t.iter := iter r\<rparr>\<rparr>)"
  using assms by (auto simp: solve_def Let_def split: sum.splits if_splits)

text \<open>The loop without the check of termination and without adaptation.\<close>

lemma iteration_no_check:
  assumes "check_termination (settings s) = 0" and "\<not> adaptive_rho (settings s)"
  shows "iteration ops qp s = Inr (admm_update ops qp s, False)"
  using assms by (simp add: iteration_def Let_def)

lemma solve_loop_no_check:
  assumes "check_termination (settings s) = 0" and "\<not> adaptive_rho (settings s)"
    and "max_iter (settings s) < INT_MAX"
  shows "solve_loop ops qp s =
     Inr (((\<lambda>a. (admm_update ops qp a)\<lparr>iter := iter a + 1\<rparr>)
            ^^ nat (max_iter (settings s) + 1 - iter s)) s)"
  using assms
proof (induction ops qp s rule: solve_loop.induct)
  case (1 ops qp s)
  let ?f = "\<lambda>a. (admm_update ops qp a)\<lparr>iter := iter a + 1\<rparr>"
  show ?case
  proof (cases "iter s \<le> max_iter (settings s)")
    case False
    then show ?thesis by (simp add: solve_loop.simps [of ops qp s])
  next
    case True
    note it = iteration_no_check [OF "1.prems"(1,2), of ops qp]
    from True "1.prems"(3) have ne: "iter (admm_update ops qp s) \<noteq> INT_MAX" by simp
    have k: "nat (max_iter (settings s) + 1 - iter s)
        = Suc (nat (max_iter (settings (?f s)) + 1 - iter (?f s)))"
      using True by simp
    from "1.IH" [OF True it refl _ ne] "1.prems"
    have "solve_loop ops qp (?f s)
        = Inr ((?f ^^ nat (max_iter (settings (?f s)) + 1 - iter (?f s))) (?f s))"
      by simp
    with True it ne show ?thesis
      unfolding k funpow_Suc_right
      by (simp add: solve_loop.simps [of ops qp s])
  qed
qed


lemma box_projection_bounds:
  "lo i \<le> up i \<Longrightarrow> lo i \<le> box_projection v lo up i \<and> box_projection v lo up i \<le> up i"
  by (simp add: box_projection_def)

lemma solve_loop_z_bounds:
  assumes "solve_loop ops qp s = Inr t"
    and "\<forall>i<m qp. l qp i \<le> u qp i"
    and "(\<forall>i<m qp. l qp i \<le> z s i \<and> z s i \<le> u qp i) \<or> iter s \<le> max_iter (settings s)"
  shows "\<forall>i<m qp. l qp i \<le> z t i \<and> z t i \<le> u qp i"
  using assms
proof (induction ops qp s rule: solve_loop.induct)
  case (1 ops qp s)
  show ?case
  proof (cases "iter s \<le> max_iter (settings s)")
    case False
    with "1.prems" show ?thesis
      by (simp add: solve_loop.simps [of ops qp s])
  next
    case True
    with "1.prems"(1) obtain b brk where it: "iteration ops qp s = Inr (b, brk)"
      by (auto simp: solve_loop.simps [of ops qp s] split: sum.splits)
    have zb: "\<forall>i<m qp. l qp i \<le> z b i \<and> z b i \<le> u qp i"
      using "1.prems"(2) box_projection_bounds [of "l qp" _ "u qp"]
      by (simp add: iteration_frame(4) [OF it] admm_update_fields(5))
    show ?thesis
    proof (cases brk)
      case brk: True
      with True it "1.prems"(1) have "t = b" by (simp add: solve_loop.simps [of ops qp s])
      with zb show ?thesis by simp
    next
      case False
      with True it "1.prems"(1)
      have ne: "iter b \<noteq> INT_MAX" and rec: "solve_loop ops qp (b\<lparr>iter := iter b + 1\<rparr>) = Inr t"
        by (auto simp: solve_loop.simps [of ops qp s] split: if_splits)
      from zb show ?thesis
        by (intro "1.IH" [OF True it refl False ne rec "1.prems"(2)]) simp
    qed
  qed
qed

lemma rho_estimate_update_state:
  "rho_estimate r qp (update_state qp a) =
     r * sqrt (residual_prim qp a
                 / (max (lpNorm_Infinity (m qp) (mat_vec (n qp) (A qp) (x a)))
                        (lpNorm_Infinity (m qp) (z a)) + DIV_BY_ZERO_REGUL)
               / (residual_dual qp a
                    / (max (lpNorm_Infinity (n qp) (mat_vec (n qp) (P qp) (x a)))
                         (max (lpNorm_Infinity (n qp) (mat_vec (m qp) (transpose_mat (A qp)) (y a)))
                              (lpNorm_Infinity (n qp) (q qp))) + DIV_BY_ZERO_REGUL)
                  + DIV_BY_ZERO_REGUL))"
  by (simp add: rho_estimate_def update_state_def Let_def residual_prim_def residual_dual_def)

lemma adapt_rho_result:
  assumes "adapt_rho ops qp chk b = Inr t"
  shows "adaptive_rho_interval (settings b) \<noteq> 0
    \<and> (let b' = (if chk then b else update_state qp b);
            rn = max RHO_MIN (min (rho_estimate (rho b) qp b') RHO_MAX)
        in if adaptive_rho_interval (settings b) dvd iter b
              \<and> (rn < rho b / adaptive_rho_tolerance (settings b)
                 \<or> rn > rho b * adaptive_rho_tolerance (settings b))
           then t = (KKT_mat_update ops qp (rho_update' (m qp) rn b'))
                      \<lparr>linear_solver := ls_factorize ops (n qp + m qp)
                         (kkt_mat (KKT_mat_update ops qp (rho_update' (m qp) rn b')))
                         (linear_solver b)\<rparr>
           else rho t = rho b \<and> rho_vec t = rho_vec b \<and> rho_inv_vec t = rho_inv_vec b)"
  using assms
  by (auto simp: adapt_rho_def Let_def smod_int_eq_0_iff split: if_splits)

lemma funpow_admm_frame:
  "info (((\<lambda>a. (admm_update ops qp a)\<lparr>iter := iter a + 1\<rparr>) ^^ k) s) = info s
   \<and> settings (((\<lambda>a. (admm_update ops qp a)\<lparr>iter := iter a + 1\<rparr>) ^^ k) s) = settings s
   \<and> iter (((\<lambda>a. (admm_update ops qp a)\<lparr>iter := iter a + 1\<rparr>) ^^ k) s) = iter s + int k"
  by (induction k) simp_all

text \<open>The concrete inputs, evaluated: the first pass of the loop on the problem
  \<open>ex_qp 0 (1/2)\<close> with \<open>rho = sigma = alpha = 1\<close>, from the zero state.\<close>

lemma ex_qp_simps [simp]:
  "n (ex_qp a b) = 1" "m (ex_qp a b) = 1" "P (ex_qp a b) = (\<lambda>i j. 1)" "q (ex_qp a b) = (\<lambda>i. - 1)"
  "A (ex_qp a b) = (\<lambda>i j. 1)" "l (ex_qp a b) = (\<lambda>i. a)" "u (ex_qp a b) = (\<lambda>i. b)"
  by (simp_all add: ex_qp_def)

lemma ex_ops_simps [simp]:
  "ls_compute ex_ops d M f = M" "ls_factorize ex_ops d M f = M"
  "ls_solve ex_ops M b 0
     = (b 0 * M (Suc 0) (Suc 0) - M (Suc 0) 0 * b (Suc 0))
       / (M 0 0 * M (Suc 0) (Suc 0) - M (Suc 0) 0 * M (Suc 0) 0)"
  "ls_solve ex_ops M b (Suc 0)
     = (M 0 0 * b (Suc 0) - M (Suc 0) 0 * b 0)
       / (M 0 0 * M (Suc 0) (Suc 0) - M (Suc 0) 0 * M (Suc 0) 0)"
  by (simp_all add: ex_ops_def)

lemma ex_solver_simps [simp]:
  "settings (ex_solver stg) = stg" "x (ex_solver stg) = setZero" "z (ex_solver stg) = setZero"
  "y (ex_solver stg) = setZero" "constr_type (ex_solver stg) = (\<lambda>i. INEQUALITY_CONSTRAINT)"
  "info (ex_solver stg)
     = \<lparr>status = SOLVED, info_t.iter = 0, info_t.res_prim = 7, info_t.res_dual = 7\<rparr>"
  "rho (ex_solver stg) = 0" "rho_vec (ex_solver stg) = setZero"
  by (simp_all add: ex_solver_def)

lemma ex_settings_simps [simp]:
  "settings_t.rho ex_settings = 1" "sigma ex_settings = 1" "alpha ex_settings = 1"
  "eps_rel ex_settings = 0" "eps_abs ex_settings = 10" "max_iter ex_settings = 5"
  "check_termination ex_settings = 1" "warm_start ex_settings = False"
  "adaptive_rho ex_settings = False" "adaptive_rho_tolerance ex_settings = 5"
  "adaptive_rho_interval ex_settings = 1"
  by (simp_all add: ex_settings_def)

lemmas ex_consts = RHO_MIN_def RHO_MAX_def RHO_TOL_def RHO_EQ_FACTOR_def
  LOOSE_BOUNDS_THRESH_def DIV_BY_ZERO_REGUL_def

lemma ex_setup:
  assumes "settings_t.rho stg = 1" and "sigma stg = 1" and "\<not> warm_start stg"
  shows "rho_vec (solve_setup ex_ops (ex_qp 0 (1/2)) (ex_solver stg)) 0 = 1"
    and "rho_inv_vec (solve_setup ex_ops (ex_qp 0 (1/2)) (ex_solver stg)) 0 = 1"
    and "rho (solve_setup ex_ops (ex_qp 0 (1/2)) (ex_solver stg)) = 1"
    and "x (solve_setup ex_ops (ex_qp 0 (1/2)) (ex_solver stg)) 0 = 0"
    and "z (solve_setup ex_ops (ex_qp 0 (1/2)) (ex_solver stg)) 0 = 0"
    and "y (solve_setup ex_ops (ex_qp 0 (1/2)) (ex_solver stg)) 0 = 0"
    and "linear_solver (solve_setup ex_ops (ex_qp 0 (1/2)) (ex_solver stg)) 0 0 = 2"
    and "linear_solver (solve_setup ex_ops (ex_qp 0 (1/2)) (ex_solver stg)) (Suc 0) 0 = 1"
    and "linear_solver (solve_setup ex_ops (ex_qp 0 (1/2)) (ex_solver stg)) (Suc 0) (Suc 0) = - 1"
  using assms
  by (simp_all add: solve_setup_fields solve_setup_kkt_mat rho_update_rho_vec
        constr_type_init_apply ex_consts setZero_def Identity_def asDiagonal_def)

lemma ex_rhs:
  assumes "settings_t.rho stg = 1" and "sigma stg = 1" and "\<not> warm_start stg"
  shows "form_KKT_rhs (ex_qp 0 (1/2))
           ((solve_setup ex_ops (ex_qp 0 (1/2)) (ex_solver stg))\<lparr>iter := 1\<rparr>) 0 = 1"
    and "form_KKT_rhs (ex_qp 0 (1/2))
           ((solve_setup ex_ops (ex_qp 0 (1/2)) (ex_solver stg))\<lparr>iter := 1\<rparr>) (Suc 0) = 0"
  using assms by (simp_all add: form_KKT_rhs_def ex_setup)

lemma ex_step:
  assumes "settings_t.rho stg = 1" and "sigma stg = 1" and "\<not> warm_start stg" and "alpha stg = 1"
  shows "x (admm_update ex_ops (ex_qp 0 (1/2))
             ((solve_setup ex_ops (ex_qp 0 (1/2)) (ex_solver stg))\<lparr>iter := 1\<rparr>)) 0 = 1 / 3"
    and "z (admm_update ex_ops (ex_qp 0 (1/2))
             ((solve_setup ex_ops (ex_qp 0 (1/2)) (ex_solver stg))\<lparr>iter := 1\<rparr>)) 0 = 1 / 3"
    and "y (admm_update ex_ops (ex_qp 0 (1/2))
             ((solve_setup ex_ops (ex_qp 0 (1/2)) (ex_solver stg))\<lparr>iter := 1\<rparr>)) 0 = 0"
  using assms
  by (simp_all add: admm_update_fields ex_rhs ex_setup head_def tail_def box_projection_def)

lemma ex_residuals:
  assumes "settings_t.rho stg = 1" and "sigma stg = 1" and "\<not> warm_start stg" and "alpha stg = 1"
  shows "residual_prim (ex_qp 0 (1/2)) (admm_update ex_ops (ex_qp 0 (1/2))
           ((solve_setup ex_ops (ex_qp 0 (1/2)) (ex_solver stg))\<lparr>iter := 1\<rparr>)) = 0"
    and "residual_dual (ex_qp 0 (1/2)) (admm_update ex_ops (ex_qp 0 (1/2))
           ((solve_setup ex_ops (ex_qp 0 (1/2)) (ex_solver stg))\<lparr>iter := 1\<rparr>)) = 2 / 3"
  using assms
  by (simp_all add: residual_prim_def residual_dual_def lpNorm_Infinity_def mat_vec_def
       transpose_mat_def ex_step)

lemma termination_criteria_update_state:
  "termination_criteria qp (update_state qp a)
     \<longleftrightarrow> residual_prim qp a \<le> eps_prim qp a \<and> residual_dual qp a \<le> eps_dual qp a"
  by (simp add: termination_criteria_def update_state_res)
     (simp add: eps_prim_def eps_dual_def)

lemma ex_solved:
  "\<exists>t. solve ex_ops (ex_qp 0 (1/2)) (ex_solver ex_settings) = Inr t
       \<and> status (info t) = SOLVED \<and> info_t.iter (info t) = 1 \<and> x t 0 = 1 / 3"
proof -
  let ?qp = "ex_qp 0 (1/2)"
  let ?s0 = "(solve_setup ex_ops ?qp (ex_solver ex_settings))\<lparr>iter := 1\<rparr>"
  let ?a = "admm_update ex_ops ?qp ?s0"
  have "eps_prim ?qp ?a = 10" "eps_dual ?qp ?a = 10"
    by (simp_all add: eps_prim_def eps_dual_def)
  then have tc: "termination_criteria ?qp (update_state ?qp ?a)"
    by (simp add: termination_criteria_update_state ex_residuals)
  let ?b = "update_state ?qp ?a"
  have it: "iteration ex_ops ?qp ?s0 = Inr (?b\<lparr>info := (info ?b)\<lparr>status := SOLVED\<rparr>\<rparr>, True)"
    using tc by (simp add: iteration_def Let_def smod_int_eq_0_iff)
  have loop: "solve_loop ex_ops ?qp ?s0 = Inr (?b\<lparr>info := (info ?b)\<lparr>status := SOLVED\<rparr>\<rparr>)"
    by (simp add: solve_loop.simps [of ex_ops ?qp ?s0] it)
  show ?thesis
    by (simp add: solve_def loop Let_def ex_step)
qed

section \<open>The penalty schedule\<close>

text \<open>
  C5. For every scalar \<open>rho0 > 0\<close> and every classification, after \<^verbatim>\<open>rho_update(rho0)\<close>
  each row \<open>i\<close> of the solver has \<open>rho_vec[i] = 1e-6\<close> when it is a LOOSE_BOUNDS row,
  \<open>10\<^sup>3 * rho0\<close> when it is an EQUALITY row and \<open>rho0\<close> when it is an INEQUALITY row;
  \<open>rho_inv_vec[i] = 1 / rho_vec[i]\<close>; \<open>rho_vec[i] > 0\<close>; and the scalar \<open>rho\<close> is \<open>rho0\<close>.
\<close>

theorem rho_update_schedule:
  "0 < rho0 \<Longrightarrow> i < k \<Longrightarrow>
     rho_vec (rho_update' k rho0 s) i =
       (case constr_type s i of
          LOOSE_BOUNDS \<Rightarrow> 1 / 10 ^ 6
        | EQUALITY_CONSTRAINT \<Rightarrow> 10 ^ 3 * rho0
        | INEQUALITY_CONSTRAINT \<Rightarrow> rho0)
     \<and> rho_inv_vec (rho_update' k rho0 s) i = 1 / rho_vec (rho_update' k rho0 s) i
     \<and> 0 < rho_vec (rho_update' k rho0 s) i
     \<and> rho (rho_update' k rho0 s) = rho0"
  by (simp add: rho_update_rho_vec rho_update_rho_inv_vec rho_update_rho RHO_MIN_def
        RHO_EQ_FACTOR_def split: constr_type_t.split)

theorem rho_update_schedule_witness:
  "(0::real) < 1 / 10 \<and> (0::nat) < 1
   \<and> rho_vec (rho_update' 1 (1 / 10) (constr_type_init (ex_qp 1 1) (ex_solver default_settings))) 0
       = 100
   \<and> rho_inv_vec (rho_update' 1 (1 / 10) (constr_type_init (ex_qp 1 1) (ex_solver default_settings))) 0
       = 1 / 100
   \<and> rho (rho_update' 1 (1 / 10) (constr_type_init (ex_qp 1 1) (ex_solver default_settings)))
       = 1 / 10"
  using rho_update_schedule [of "1 / 10" 0 1 "constr_type_init (ex_qp 1 1) (ex_solver default_settings)"]
  by (simp add: constr_type_init_apply ex_qp_def RHO_TOL_def LOOSE_BOUNDS_THRESH_def)

section \<open>The constraint classifier\<close>

text \<open>
  C4. For every pair of bounds and every row \<open>i\<close>, the classifier run at the start of
  \<^verbatim>\<open>solve\<close> sets \<open>constr_type[i]\<close> to LOOSE_BOUNDS iff \<open>l\<^sub>i < -1e16\<close> and \<open>u\<^sub>i > 1e16\<close>
  (strictly); otherwise to EQUALITY iff \<open>u\<^sub>i - l\<^sub>i < 1e-4\<close>; otherwise to INEQUALITY. No pass
  through the loop body changes the classification, and the solver that \<^verbatim>\<open>solve\<close>
  returns still has it.
\<close>

theorem constr_type_classification:
  "(\<forall>i<m qp. constr_type (constr_type_init qp s) i =
       (if l qp i < - (10 ^ 16) \<and> u qp i > 10 ^ 16 then LOOSE_BOUNDS
        else if u qp i - l qp i < 1 / 10 ^ 4 then EQUALITY_CONSTRAINT
        else INEQUALITY_CONSTRAINT))
   \<and> (\<forall>a b brk. iteration ops qp a = Inr (b, brk) \<longrightarrow> constr_type b = constr_type a)
   \<and> (\<forall>t. solve ops qp s = Inr t \<longrightarrow>
        (\<forall>i<m qp. constr_type t i =
          (if l qp i < - (10 ^ 16) \<and> u qp i > 10 ^ 16 then LOOSE_BOUNDS
           else if u qp i - l qp i < 1 / 10 ^ 4 then EQUALITY_CONSTRAINT
           else INEQUALITY_CONSTRAINT)))"
proof (intro conjI allI impI)
  fix i assume "i < m qp"
  then show "constr_type (constr_type_init qp s) i =
       (if l qp i < - (10 ^ 16) \<and> u qp i > 10 ^ 16 then LOOSE_BOUNDS
        else if u qp i - l qp i < 1 / 10 ^ 4 then EQUALITY_CONSTRAINT
        else INEQUALITY_CONSTRAINT)"
    by (simp add: constr_type_init_apply LOOSE_BOUNDS_THRESH_def RHO_TOL_def)
next
  fix a b :: "'a solver" and brk
  assume "iteration ops qp a = Inr (b, brk)"
  then show "constr_type b = constr_type a" by (rule iteration_frame)
next
  fix t i
  assume sol: "solve ops qp s = Inr t" and i: "i < m qp"
  let ?s0 = "(solve_setup ops qp s)\<lparr>iter := 1\<rparr>"
  from sol obtain r where loop: "solve_loop ops qp ?s0 = Inr r"
    and t: "constr_type t = constr_type r"
    by (auto simp: solve_def Let_def split: sum.splits if_splits)
  have "constr_type r = constr_type ?s0"
    by (rule solve_loop_invariant [OF loop, where I = "\<lambda>a. constr_type a = constr_type ?s0"])
       (auto dest: iteration_frame(6))
  also have "\<dots> = constr_type (constr_type_init qp s)"
    by (simp add: solve_setup_def Let_def constr_type_init_def)
  finally show "constr_type t i =
          (if l qp i < - (10 ^ 16) \<and> u qp i > 10 ^ 16 then LOOSE_BOUNDS
           else if u qp i - l qp i < 1 / 10 ^ 4 then EQUALITY_CONSTRAINT
           else INEQUALITY_CONSTRAINT)"
    using i t by (simp add: constr_type_init_apply LOOSE_BOUNDS_THRESH_def RHO_TOL_def)
qed

theorem constr_type_classification_witness:
  "constr_type (constr_type_init (ex_qp 1 1) (ex_solver ex_settings)) 0 = EQUALITY_CONSTRAINT
   \<and> (\<exists>t. solve ex_ops (ex_qp 1 1) (ex_solver ex_settings) = Inr t
          \<and> constr_type t 0 = EQUALITY_CONSTRAINT)"
proof -
  obtain t where t: "solve ex_ops (ex_qp 1 1) (ex_solver ex_settings) = Inr t"
    using solve_total [of "ex_solver ex_settings" ex_ops "ex_qp 1 1"]
    by (auto simp: INT_MAX_def)
  with constr_type_classification [of "ex_qp 1 1" "ex_solver ex_settings" ex_ops]
  show ?thesis by simp
qed

section \<open>The KKT system\<close>

text \<open>
  C6. Whenever the KKT system is assembled, the matrix of \<open>n + m\<close> rows and columns has
  the top-left block \<open>P + sigma * I\<close>, the bottom-right block \<open>- diag(rho_inv_vec)\<close>, the
  bottom-left block \<open>A\<close> and the top-right block \<open>A\<^sup>T\<close> (which the code writes for every
  value of \<^verbatim>\<open>LinearSolver_UpLo\<close>); the sparse matrix given to the linear solver has the
  same coefficients; and the right-hand side is \<open>sigma * x - q\<close> stacked on
  \<open>z - rho_inv_vec * y\<close>, at the current state.
\<close>

theorem KKT_blocks:
  "(\<forall>i<n qp. \<forall>j<n qp. kkt_mat (KKT_mat_update ops qp s) i j
        = P qp i j + (if i = j then sigma (settings s) else 0))
   \<and> (\<forall>i<m qp. \<forall>j<m qp. kkt_mat (KKT_mat_update ops qp s) (n qp + i) (n qp + j)
        = (if i = j then - rho_inv_vec s i else 0))
   \<and> (\<forall>i<m qp. \<forall>j<n qp. kkt_mat (KKT_mat_update ops qp s) (n qp + i) j = A qp i j)
   \<and> (\<forall>i<n qp. \<forall>j<m qp. kkt_mat (KKT_mat_update ops qp s) i (n qp + j) = A qp j i)
   \<and> kkt_mat_sparse (KKT_mat_update ops qp s) = kkt_mat (KKT_mat_update ops qp s)
   \<and> (\<forall>i<n qp. form_KKT_rhs qp s i = sigma (settings s) * x s i - q qp i)
   \<and> (\<forall>i<m qp. form_KKT_rhs qp s (n qp + i) = z s i - rho_inv_vec s i * y s i)"
  by (simp add: KKT_mat_update_apply form_KKT_rhs_def Identity_def asDiagonal_def)

theorem KKT_blocks_witness:
  "kkt_mat (KKT_mat_update ex_ops (ex_qp 0 (1/2)) (ex_solver ex_settings)) 0 0 = 2
   \<and> kkt_mat (KKT_mat_update ex_ops (ex_qp 0 (1/2)) (ex_solver ex_settings)) 1 0 = 1
   \<and> kkt_mat (KKT_mat_update ex_ops (ex_qp 0 (1/2)) (ex_solver ex_settings)) 0 1 = 1
   \<and> kkt_mat (KKT_mat_update ex_ops (ex_qp 0 (1/2)) (ex_solver ex_settings)) 1 1
        = - rho_inv_vec (ex_solver ex_settings) 0
   \<and> form_KKT_rhs (ex_qp 0 (1/2)) (ex_solver ex_settings) 0 = 1
   \<and> form_KKT_rhs (ex_qp 0 (1/2)) (ex_solver ex_settings) 1 = 0"
  using KKT_blocks [of "ex_qp 0 (1/2)" ex_ops "ex_solver ex_settings"]
  by (simp add: setZero_def ex_solver_def)

section \<open>The update of the iterates\<close>



section \<open>The slack stays in the box\<close>

text \<open>
  C3. For every problem with \<open>l\<^sub>i \<le> u\<^sub>i\<close> on every row, the projection puts any vector
  between \<open>l\<close> and \<open>u\<close>, so in every pass through the loop body \<open>l \<le> z \<le> u\<close> holds
  componentwise after the projection step; the rest of the pass does not write \<open>z\<close>;
  and when \<^verbatim>\<open>solve\<close> returns after at least one pass, the \<open>z\<close> it returns is between
  \<open>l\<close> and \<open>u\<close>.
\<close>

theorem z_within_bounds:
  assumes "\<forall>i<m qp. l qp i \<le> u qp i"
  shows "(\<forall>i<m qp. l qp i \<le> box_projection v (l qp) (u qp) i
                  \<and> box_projection v (l qp) (u qp) i \<le> u qp i)
    \<and> (\<forall>i<m qp. l qp i \<le> z (admm_update ops qp s) i \<and> z (admm_update ops qp s) i \<le> u qp i)
    \<and> (\<forall>t brk. iteration ops qp s = Inr (t, brk) \<longrightarrow> z t = z (admm_update ops qp s))
    \<and> (\<forall>t. solve ops qp s = Inr t \<longrightarrow> 1 \<le> max_iter (settings s) \<longrightarrow>
          (\<forall>i<m qp. l qp i \<le> z t i \<and> z t i \<le> u qp i))"
proof (intro conjI allI impI)
  fix i assume "i < m qp"
  with assms show "l qp i \<le> box_projection v (l qp) (u qp) i"
    and "box_projection v (l qp) (u qp) i \<le> u qp i"
    and "l qp i \<le> z (admm_update ops qp s) i"
    and "z (admm_update ops qp s) i \<le> u qp i"
    by (simp_all add: admm_update_fields(5) box_projection_bounds)
next
  fix t brk assume "iteration ops qp s = Inr (t, brk)"
  then show "z t = z (admm_update ops qp s)" by (rule iteration_frame)
next
  fix t i
  assume sol: "solve ops qp s = Inr t" and mi: "1 \<le> max_iter (settings s)" and i: "i < m qp"
  from sol obtain r
    where loop: "solve_loop ops qp ((solve_setup ops qp s)\<lparr>iter := 1\<rparr>) = Inr r"
      and t: "t = (if iter r > max_iter (settings r)
              then r\<lparr>info := (info r)\<lparr>status := MAX_ITER, info_t.iter := iter r\<rparr>\<rparr>
              else r\<lparr>info := (info r)\<lparr>info_t.iter := iter r\<rparr>\<rparr>)"
    by (rule solve_cases)
  from t have "z t = z r" by simp
  moreover have "\<forall>i<m qp. l qp i \<le> z r i \<and> z r i \<le> u qp i"
    using mi by (intro solve_loop_z_bounds [OF loop assms]) simp
  ultimately show "l qp i \<le> z t i" and "z t i \<le> u qp i"
    using i by simp_all
qed

theorem z_within_bounds_witness:
  "m (ex_qp 0 (1/2)) = 1 \<and> l (ex_qp 0 (1/2)) 0 \<le> u (ex_qp 0 (1/2)) 0
   \<and> 1 \<le> max_iter (settings (ex_solver ex_settings))
   \<and> (\<exists>t. solve ex_ops (ex_qp 0 (1/2)) (ex_solver ex_settings) = Inr t
          \<and> 0 \<le> z t 0 \<and> z t 0 \<le> 1 / 2)"
proof -
  have h: "\<forall>i<m (ex_qp 0 (1/2)). l (ex_qp 0 (1/2)) i \<le> u (ex_qp 0 (1/2)) i"
    by simp
  obtain t where t: "solve ex_ops (ex_qp 0 (1/2)) (ex_solver ex_settings) = Inr t"
    using ex_solved by blast
  with z_within_bounds [OF h, of "\<lambda>i. 0" ex_ops "ex_solver ex_settings"] h
  show ?thesis by simp
qed

section \<open>Termination\<close>

text \<open>
  C2. For every problem and settings, if \<^verbatim>\<open>solve\<close> returns with status SOLVED, the
  iterates it returns satisfy \<open>\<parallel>A x - z\<parallel> \<le> eps_abs + eps_rel * max(\<parallel>A x\<parallel>, \<parallel>z\<parallel>)\<close> and
  \<open>\<parallel>P x + q + A\<^sup>T y\<parallel> \<le> eps_abs + eps_rel * max(\<parallel>P x\<parallel>, \<parallel>A\<^sup>T y\<parallel>, \<parallel>q\<parallel>)\<close> in the
  infinity norm.
\<close>

theorem solved_satisfies_tolerances:
  assumes "solve ops qp s = Inr t" and "status (info t) = SOLVED"
  shows "lpNorm_Infinity (m qp) (\<lambda>i. mat_vec (n qp) (A qp) (x t) i - z t i)
           \<le> eps_abs (settings s) + eps_rel (settings s)
               * max (lpNorm_Infinity (m qp) (mat_vec (n qp) (A qp) (x t)))
                     (lpNorm_Infinity (m qp) (z t))
       \<and> lpNorm_Infinity (n qp)
           (\<lambda>i. mat_vec (n qp) (P qp) (x t) i + q qp i
                  + mat_vec (m qp) (transpose_mat (A qp)) (y t) i)
           \<le> eps_abs (settings s) + eps_rel (settings s)
               * max (lpNorm_Infinity (n qp) (mat_vec (n qp) (P qp) (x t)))
                   (max (lpNorm_Infinity (n qp) (mat_vec (m qp) (transpose_mat (A qp)) (y t)))
                        (lpNorm_Infinity (n qp) (q qp)))"
proof -
  from assms(1) obtain r
    where loop: "solve_loop ops qp ((solve_setup ops qp s)\<lparr>iter := 1\<rparr>) = Inr r"
      and t: "t = (if iter r > max_iter (settings r)
              then r\<lparr>info := (info r)\<lparr>status := MAX_ITER, info_t.iter := iter r\<rparr>\<rparr>
              else r\<lparr>info := (info r)\<lparr>info_t.iter := iter r\<rparr>\<rparr>)"
    by (rule solve_cases)
  from t assms(2) have le: "iter r \<le> max_iter (settings r)"
    by (auto split: if_splits)
  from solve_loop_exit [OF loop] have st: "settings r = settings s"
    and "iter r = max 1 (max_iter (settings s) + 1) \<or> fired qp r"
    by auto
  with le have f: "fired qp r" by auto
  from t le have xyz: "x t = x r" "z t = z r" "y t = y r" "settings t = settings r"
    by simp_all
  from f have "residual_prim qp r \<le> eps_prim qp r" "residual_dual qp r \<le> eps_dual qp r"
    by (auto simp: fired_def termination_criteria_def split: if_splits)
  then show ?thesis
    by (simp add: residual_prim_def residual_dual_def eps_prim_def eps_dual_def Let_def xyz st)
qed

theorem solved_satisfies_tolerances_witness:
  "\<exists>t. solve ex_ops (ex_qp 0 (1/2)) (ex_solver ex_settings) = Inr t
     \<and> status (info t) = SOLVED
     \<and> lpNorm_Infinity 1 (\<lambda>i. mat_vec 1 (\<lambda>i j. 1) (x t) i - z t i)
         \<le> 10 + 0 * max (lpNorm_Infinity 1 (mat_vec 1 (\<lambda>i j. 1) (x t))) (lpNorm_Infinity 1 (z t))"
proof -
  obtain t where t: "solve ex_ops (ex_qp 0 (1/2)) (ex_solver ex_settings) = Inr t"
    "status (info t) = SOLVED"
    using ex_solved by blast
  from solved_satisfies_tolerances [OF t] t show ?thesis
    by (intro exI [of _ t]) simp
qed

text \<open>
  C7. When \<^verbatim>\<open>solve\<close> returns with a budget \<open>max_iter \<ge> 0\<close>: either the termination
  criterion fired (the status is SOLVED, the check was due at the iteration counted
  by \<open>info.iter \<le> max_iter\<close> and the criterion holds of the returned iterates), or the
  budget is exhausted, and then the status is MAX_ITER and \<open>info.iter = max_iter + 1\<close>,
  the value of the counter after the loop. In particular with \<open>max_iter = 1\<close> and the
  default \<open>check_termination = 25\<close>, \<^verbatim>\<open>solve\<close> returns the status MAX_ITER and
  \<open>info.iter = 2\<close>.
\<close>

theorem max_iter_exit:
  "(\<forall>t. solve ops qp s = Inr t \<longrightarrow> 0 \<le> max_iter (settings s) \<longrightarrow>
      (status (info t) = MAX_ITER \<longrightarrow> info_t.iter (info t) = max_iter (settings s) + 1)
      \<and> (status (info t) = SOLVED \<longrightarrow>
           1 \<le> info_t.iter (info t) \<and> info_t.iter (info t) \<le> max_iter (settings s)
           \<and> check_termination (settings s) \<noteq> 0
           \<and> check_termination (settings s) dvd info_t.iter (info t)
           \<and> termination_criteria qp t))
   \<and> (max_iter (settings s) = 1 \<longrightarrow> check_termination (settings s) = 25 \<longrightarrow>
        (adaptive_rho (settings s) \<longrightarrow> adaptive_rho_interval (settings s) \<noteq> 0) \<longrightarrow>
        (\<exists>t. solve ops qp s = Inr t \<and> status (info t) = MAX_ITER \<and> info_t.iter (info t) = 2))"
proof -
  have gen: "(status (info t) = MAX_ITER \<longrightarrow> info_t.iter (info t) = max_iter (settings s) + 1)
      \<and> (status (info t) = SOLVED \<longrightarrow>
           1 \<le> info_t.iter (info t) \<and> info_t.iter (info t) \<le> max_iter (settings s)
           \<and> check_termination (settings s) \<noteq> 0
           \<and> check_termination (settings s) dvd info_t.iter (info t)
           \<and> termination_criteria qp t)"
    if sol: "solve ops qp s = Inr t" and nn: "0 \<le> max_iter (settings s)" for t
  proof -
    from sol obtain r
      where loop: "solve_loop ops qp ((solve_setup ops qp s)\<lparr>iter := 1\<rparr>) = Inr r"
        and t: "t = (if iter r > max_iter (settings r)
                then r\<lparr>info := (info r)\<lparr>status := MAX_ITER, info_t.iter := iter r\<rparr>\<rparr>
                else r\<lparr>info := (info r)\<lparr>info_t.iter := iter r\<rparr>\<rparr>)"
      by (rule solve_cases)
    from solve_loop_exit [OF loop] have st: "settings r = settings s"
      and ex: "iter r = max 1 (max_iter (settings s) + 1)
          \<or> 1 \<le> iter r \<and> iter r \<le> max_iter (settings s) \<and> fired qp r"
      by auto
    show ?thesis
    proof (cases "iter r > max_iter (settings r)")
      case True
      with ex st nn have "iter r = max_iter (settings s) + 1" by auto
      with True t show ?thesis by simp
    next
      case False
      with ex st nn have f: "1 \<le> iter r" "iter r \<le> max_iter (settings s)" "fired qp r" by auto
      from False t have t': "t = r\<lparr>info := (info r)\<lparr>info_t.iter := iter r\<rparr>\<rparr>" by simp
      have "termination_criteria qp t = termination_criteria qp r"
        by (simp add: t' termination_criteria_def eps_prim_def eps_dual_def)
      with f(3) have "termination_criteria qp t" by (simp add: fired_def)
      with f st show ?thesis by (simp add: fired_def t')
    qed
  qed
  have part: "\<exists>t. solve ops qp s = Inr t \<and> status (info t) = MAX_ITER \<and> info_t.iter (info t) = 2"
    if mi: "max_iter (settings s) = 1" and ct: "check_termination (settings s) = 25"
      and ar: "adaptive_rho (settings s) \<longrightarrow> adaptive_rho_interval (settings s) \<noteq> 0"
  proof -
    from mi ar obtain t where sol: "solve ops qp s = Inr t"
      using solve_total [of s ops qp] by (auto simp: INT_MAX_def)
    from gen [OF sol] mi ct have "status (info t) \<noteq> SOLVED" by auto
    then have "status (info t) = MAX_ITER" by (cases "status (info t)") auto
    with gen [OF sol] mi sol show ?thesis by auto
  qed
  from gen part show ?thesis by blast
qed

theorem max_iter_exit_witness:
  "0 \<le> max_iter (default_settings\<lparr>max_iter := 1\<rparr>)
   \<and> check_termination (default_settings\<lparr>max_iter := 1\<rparr>) = 25
   \<and> (\<exists>t. solve ex_ops (ex_qp 0 (1/2)) (ex_solver (default_settings\<lparr>max_iter := 1\<rparr>)) = Inr t
          \<and> status (info t) = MAX_ITER \<and> info_t.iter (info t) = 2)"
  using max_iter_exit [of ex_ops "ex_qp 0 (1/2)" "ex_solver (default_settings\<lparr>max_iter := 1\<rparr>)"]
  by (simp add: default_settings_def)

text \<open>
  C10. For every problem and settings with \<open>check_termination = 0\<close>, \<open>adaptive_rho\<close> off
  and a budget \<open>0 \<le> max_iter < INT_MAX\<close>, \<^verbatim>\<open>solve\<close> never evaluates the termination
  criterion: it runs the update of the iterates \<open>max_iter\<close> times from the set-up state
  and returns the status MAX_ITER and \<open>info.iter = max_iter + 1\<close>, whatever the
  iterates are, and \<open>info.res_prim\<close> and \<open>info.res_dual\<close> keep the value they had
  before the call.
\<close>

theorem no_check_runs_all_iterations:
  assumes "check_termination (settings s) = 0" and "\<not> adaptive_rho (settings s)"
    and "0 \<le> max_iter (settings s)" and "max_iter (settings s) < INT_MAX"
  shows "\<exists>t. solve ops qp s = Inr t
    \<and> status (info t) = MAX_ITER
    \<and> info_t.iter (info t) = max_iter (settings s) + 1
    \<and> info_t.res_prim (info t) = info_t.res_prim (info s)
    \<and> info_t.res_dual (info t) = info_t.res_dual (info s)
    \<and> t = (((\<lambda>a. (admm_update ops qp a)\<lparr>iter := iter a + 1\<rparr>) ^^ nat (max_iter (settings s)))
             ((solve_setup ops qp s)\<lparr>iter := 1\<rparr>))
            \<lparr>info := (info s)\<lparr>status := MAX_ITER, info_t.iter := max_iter (settings s) + 1\<rparr>\<rparr>"
proof -
  let ?f = "\<lambda>a. (admm_update ops qp a)\<lparr>iter := iter a + 1\<rparr>"
  let ?s0 = "(solve_setup ops qp s)\<lparr>iter := 1\<rparr>"
  let ?r = "(?f ^^ nat (max_iter (settings s))) ?s0"
  from assms have loop: "solve_loop ops qp ?s0 = Inr ?r"
    using solve_loop_no_check [where s = ?s0 and ops = ops and qp = qp] by simp
  have fr: "info ?r = info s" "settings ?r = settings s" "iter ?r = max_iter (settings s) + 1"
    using funpow_admm_frame [where ops = ops and qp = qp and k = "nat (max_iter (settings s))"
        and s = ?s0] assms(3)
    by (simp_all add: solve_setup_fields)
  show ?thesis
    by (simp add: solve_def loop fr Let_def)
qed

theorem no_check_runs_all_iterations_witness:
  "check_termination (ex_settings\<lparr>check_termination := 0\<rparr>) = 0
   \<and> \<not> adaptive_rho (ex_settings\<lparr>check_termination := 0\<rparr>)
   \<and> 0 \<le> max_iter (ex_settings\<lparr>check_termination := 0\<rparr>)
   \<and> max_iter (ex_settings\<lparr>check_termination := 0\<rparr>) < INT_MAX
   \<and> (\<exists>t. solve ex_ops (ex_qp 0 (1/2)) (ex_solver (ex_settings\<lparr>check_termination := 0\<rparr>)) = Inr t
          \<and> status (info t) = MAX_ITER \<and> info_t.iter (info t) = 6
          \<and> info_t.res_prim (info t) = 7 \<and> info_t.res_dual (info t) = 7)"
  using no_check_runs_all_iterations
    [of "ex_solver (ex_settings\<lparr>check_termination := 0\<rparr>)" ex_ops "ex_qp 0 (1/2)"]
  by (auto simp: INT_MAX_def)

section \<open>The adaptation of the penalty\<close>

lemma ex_adapt:
  "\<exists>t. iteration ex_ops (ex_qp 0 (1/2))
          ((solve_setup ex_ops (ex_qp 0 (1/2))
              (ex_solver (ex_settings\<lparr>check_termination := 0, adaptive_rho := True\<rparr>)))\<lparr>iter := 1\<rparr>)
        = Inr (t, False)
      \<and> rho t = 1 / 10 ^ 6"
  by (simp add: iteration_def adapt_rho_def Let_def rho_estimate_update_state ex_residuals
        ex_setup ex_consts smod_int_eq_0_iff rho_update_rho)

text \<open>
  C9. With \<open>adaptive_rho\<close> set, a pass through the loop body at an iteration that is not
  a multiple of \<open>adaptive_rho_interval\<close> leaves \<open>rho\<close>, \<open>rho_vec\<close> and \<open>rho_inv_vec\<close> as they
  were. A pass changes \<open>rho\<close> or \<open>rho_vec\<close> only at a multiple of the interval and only
  when the clamped estimate \<open>rho_new = clamp(rho * sqrt(r_p / (r_d + 1e-10)), 1e-6, 1e6)\<close>,
  with \<open>r_p\<close> and \<open>r_d\<close> the residuals of the current iterates divided by their scale
  plus \<open>1e-10\<close>, satisfies \<open>rho_new < rho / adaptive_rho_tolerance\<close> or
  \<open>rho_new > rho * adaptive_rho_tolerance\<close>. Then \<open>rho\<close> is \<open>rho_new\<close>, \<open>rho_vec\<close> is the
  schedule of \<open>rho_new\<close>, the KKT matrix has the blocks \<open>P + sigma * I\<close>, \<open>A\<close>, \<open>A\<^sup>T\<close> and
  \<open>- diag(1 / rho_vec)\<close> of the new \<open>rho_vec\<close>, and the linear solver has refactorized
  it.
\<close>

theorem adaptive_rho_cadence:
  assumes "iteration ops qp s = Inr (t, brk)" and "adaptive_rho (settings s)"
  shows "(\<not> adaptive_rho_interval (settings s) dvd iter s \<longrightarrow>
            rho t = rho s \<and> rho_vec t = rho_vec s \<and> rho_inv_vec t = rho_inv_vec s)
    \<and> (rho t \<noteq> rho s \<or> rho_vec t \<noteq> rho_vec s \<longrightarrow>
         adaptive_rho_interval (settings s) dvd iter s
         \<and> (let a = admm_update ops qp s;
                r_p = residual_prim qp a
                        / (max (lpNorm_Infinity (m qp) (mat_vec (n qp) (A qp) (x a)))
                               (lpNorm_Infinity (m qp) (z a)) + 1 / 10 ^ 10);
                r_d = residual_dual qp a
                        / (max (lpNorm_Infinity (n qp) (mat_vec (n qp) (P qp) (x a)))
                             (max (lpNorm_Infinity (n qp)
                                     (mat_vec (m qp) (transpose_mat (A qp)) (y a)))
                                  (lpNorm_Infinity (n qp) (q qp))) + 1 / 10 ^ 10);
                rho_new = max (1 / 10 ^ 6) (min (rho s * sqrt (r_p / (r_d + 1 / 10 ^ 10))) (10 ^ 6))
            in (rho_new < rho s / adaptive_rho_tolerance (settings s)
                \<or> rho_new > rho s * adaptive_rho_tolerance (settings s))
               \<and> rho t = rho_new
               \<and> rho_vec t = rho_vec (rho_update' (m qp) rho_new s)
               \<and> rho_inv_vec t = (\<lambda>i. 1 / rho_vec t i)
               \<and> (\<forall>i<m qp. rho_vec t i =
                     (case constr_type s i of
                        LOOSE_BOUNDS \<Rightarrow> 1 / 10 ^ 6
                      | EQUALITY_CONSTRAINT \<Rightarrow> 10 ^ 3 * rho_new
                      | INEQUALITY_CONSTRAINT \<Rightarrow> rho_new))
               \<and> (\<forall>i<n qp. \<forall>j<n qp. kkt_mat t i j
                     = P qp i j + (if i = j then sigma (settings s) else 0))
               \<and> (\<forall>i<m qp. \<forall>j<m qp. kkt_mat t (n qp + i) (n qp + j)
                     = (if i = j then - (1 / rho_vec t i) else 0))
               \<and> (\<forall>i<m qp. \<forall>j<n qp. kkt_mat t (n qp + i) j = A qp i j)
               \<and> (\<forall>i<n qp. \<forall>j<m qp. kkt_mat t i (n qp + j) = A qp j i)
               \<and> kkt_mat_sparse t = kkt_mat t
               \<and> linear_solver t
                    = ls_factorize ops (n qp + m qp) (kkt_mat_sparse t) (linear_solver s)))"
proof -
  let ?a = "admm_update ops qp s"
  let ?chk = "check_termination (settings s) \<noteq> 0 \<and> iter s smod check_termination (settings s) = 0"
  let ?b = "if ?chk then update_state qp ?a else ?a"
  let ?rn = "max RHO_MIN (min (rho_estimate (rho s) qp (update_state qp ?a)) RHO_MAX)"
  let ?c = "rho_update' (m qp) ?rn (update_state qp ?a)"
  have b': "(if ?chk then ?b else update_state qp ?b) = update_state qp ?a"
    by simp
  have fb: "rho ?b = rho s" "rho_vec ?b = rho_vec s" "rho_inv_vec ?b = rho_inv_vec s"
    "settings ?b = settings s" "iter ?b = iter s" "linear_solver ?b = linear_solver s"
    by simp_all
  consider (brk) "rho t = rho s" "rho_vec t = rho_vec s" "rho_inv_vec t = rho_inv_vec s"
    | (ad) "adapt_rho ops qp ?chk ?b = Inr t"
    using assms by (auto simp: iteration_def Let_def split: if_splits sum.splits)
  then show ?thesis
  proof cases
    case brk
    then show ?thesis by simp
  next
    case ad
    from adapt_rho_result [OF ad]
    have res: "if adaptive_rho_interval (settings s) dvd iter s
              \<and> (?rn < rho s / adaptive_rho_tolerance (settings s)
                 \<or> ?rn > rho s * adaptive_rho_tolerance (settings s))
           then t = (KKT_mat_update ops qp ?c)
                      \<lparr>linear_solver := ls_factorize ops (n qp + m qp)
                         (kkt_mat (KKT_mat_update ops qp ?c)) (linear_solver s)\<rparr>
           else rho t = rho s \<and> rho_vec t = rho_vec s \<and> rho_inv_vec t = rho_inv_vec s"
      unfolding Let_def b' fb by simp
    show ?thesis
    proof (cases "adaptive_rho_interval (settings s) dvd iter s
              \<and> (?rn < rho s / adaptive_rho_tolerance (settings s)
                 \<or> ?rn > rho s * adaptive_rho_tolerance (settings s))")
      case False
      with res show ?thesis by auto
    next
      case True
      with res have t: "t = (KKT_mat_update ops qp ?c)
                      \<lparr>linear_solver := ls_factorize ops (n qp + m qp)
                         (kkt_mat (KKT_mat_update ops qp ?c)) (linear_solver s)\<rparr>"
        by simp
      have rn: "?rn = max (1 / 10 ^ 6) (min (rho s * sqrt
          (residual_prim qp ?a
                 / (max (lpNorm_Infinity (m qp) (mat_vec (n qp) (A qp) (x ?a)))
                        (lpNorm_Infinity (m qp) (z ?a)) + 1 / 10 ^ 10)
               / (residual_dual qp ?a
                    / (max (lpNorm_Infinity (n qp) (mat_vec (n qp) (P qp) (x ?a)))
                         (max (lpNorm_Infinity (n qp) (mat_vec (m qp) (transpose_mat (A qp)) (y ?a)))
                              (lpNorm_Infinity (n qp) (q qp))) + 1 / 10 ^ 10)
                  + 1 / 10 ^ 10))) (10 ^ 6))"
        by (simp add: rho_estimate_update_state RHO_MIN_def RHO_MAX_def DIV_BY_ZERO_REGUL_def)
      have 1: "rho t = ?rn" by (simp add: t rho_update_rho)
      have 2: "rho_vec t = rho_vec (rho_update' (m qp) ?rn s)"
        by (simp add: t fun_eq_iff rho_update_rho_vec)
      have 3: "rho_inv_vec t = (\<lambda>i. 1 / rho_vec t i)"
        by (simp add: t fun_eq_iff rho_update_rho_inv_vec)
      have 4: "\<forall>i<m qp. rho_vec t i =
                     (case constr_type s i of
                        LOOSE_BOUNDS \<Rightarrow> 1 / 10 ^ 6
                      | EQUALITY_CONSTRAINT \<Rightarrow> 10 ^ 3 * ?rn
                      | INEQUALITY_CONSTRAINT \<Rightarrow> ?rn)"
        by (simp add: t rho_update_rho_vec RHO_MIN_def RHO_EQ_FACTOR_def
              cong: constr_type_t.case_cong)
      have 7: "\<forall>i<n qp. \<forall>j<n qp. kkt_mat t i j
                     = P qp i j + (if i = j then sigma (settings s) else 0)"
        by (simp add: t KKT_mat_update_apply Identity_def)
      have 8: "\<forall>i<m qp. \<forall>j<m qp. kkt_mat t (n qp + i) (n qp + j)
                     = (if i = j then - (1 / rho_vec t i) else 0)"
        by (simp add: t KKT_mat_update_apply asDiagonal_def rho_update_rho_inv_vec)
      have 9: "\<forall>i<m qp. \<forall>j<n qp. kkt_mat t (n qp + i) j = A qp i j"
        by (simp add: t KKT_mat_update_apply)
      have 10: "\<forall>i<n qp. \<forall>j<m qp. kkt_mat t i (n qp + j) = A qp j i"
        by (simp add: t KKT_mat_update_apply)
      have 5: "kkt_mat_sparse t = kkt_mat t" by (simp add: t)
      have 6: "linear_solver t
          = ls_factorize ops (n qp + m qp) (kkt_mat_sparse t) (linear_solver s)"
        by (simp add: t)
      from True 1 2 3 4 5 6 7 8 9 10 show ?thesis
        unfolding Let_def rn [symmetric] by blast
    qed
  qed
qed

theorem adaptive_rho_cadence_witness:
  "\<exists>t brk. iteration ex_ops (ex_qp 0 (1/2))
          ((solve_setup ex_ops (ex_qp 0 (1/2))
              (ex_solver (ex_settings\<lparr>check_termination := 0, adaptive_rho := True\<rparr>)))\<lparr>iter := 1\<rparr>)
        = Inr (t, brk)
      \<and> adaptive_rho (ex_settings\<lparr>check_termination := 0, adaptive_rho := True\<rparr>)
      \<and> rho ((solve_setup ex_ops (ex_qp 0 (1/2))
              (ex_solver (ex_settings\<lparr>check_termination := 0, adaptive_rho := True\<rparr>)))\<lparr>iter := 1\<rparr>) = 1
      \<and> rho t = 1 / 10 ^ 6
      \<and> rho_vec t 0 = 1 / 10 ^ 6
      \<and> kkt_mat t 0 0 = 2 \<and> kkt_mat t 1 0 = 1 \<and> kkt_mat t 0 1 = 1
      \<and> kkt_mat t 1 1 = - (10 ^ 6)
      \<and> linear_solver t = kkt_mat t"
proof -
  let ?stg = "ex_settings\<lparr>check_termination := 0, adaptive_rho := True\<rparr>"
  let ?qp = "ex_qp 0 (1/2)"
  let ?s0 = "(solve_setup ex_ops ?qp (ex_solver ?stg))\<lparr>iter := 1\<rparr>"
  obtain t where it: "iteration ex_ops ?qp ?s0 = Inr (t, False)"
    and r: "rho t = 1 / 10 ^ 6"
    using ex_adapt by blast
  have ad: "adaptive_rho (settings ?s0)" by simp
  have r0: "rho ?s0 = 1" by (simp add: ex_setup)
  with r have ne: "rho t \<noteq> rho ?s0" by simp
  have "\<exists>c. rho t = c
      \<and> (\<forall>i<m ?qp. rho_vec t i =
            (case constr_type ?s0 i of
               LOOSE_BOUNDS \<Rightarrow> 1 / 10 ^ 6
             | EQUALITY_CONSTRAINT \<Rightarrow> 10 ^ 3 * c
             | INEQUALITY_CONSTRAINT \<Rightarrow> c))
      \<and> (\<forall>i<n ?qp. \<forall>j<n ?qp. kkt_mat t i j
            = P ?qp i j + (if i = j then sigma (settings ?s0) else 0))
      \<and> (\<forall>i<m ?qp. \<forall>j<m ?qp. kkt_mat t (n ?qp + i) (n ?qp + j)
            = (if i = j then - (1 / rho_vec t i) else 0))
      \<and> (\<forall>i<m ?qp. \<forall>j<n ?qp. kkt_mat t (n ?qp + i) j = A ?qp i j)
      \<and> (\<forall>i<n ?qp. \<forall>j<m ?qp. kkt_mat t i (n ?qp + j) = A ?qp j i)
      \<and> kkt_mat_sparse t = kkt_mat t
      \<and> linear_solver t
           = ls_factorize ex_ops (n ?qp + m ?qp) (kkt_mat_sparse t) (linear_solver ?s0)"
    using adaptive_rho_cadence [OF it ad] ne unfolding Let_def by blast
  then obtain c where c: "rho t = c"
    and rv: "\<forall>i<m ?qp. rho_vec t i =
            (case constr_type ?s0 i of
               LOOSE_BOUNDS \<Rightarrow> 1 / 10 ^ 6
             | EQUALITY_CONSTRAINT \<Rightarrow> 10 ^ 3 * c
             | INEQUALITY_CONSTRAINT \<Rightarrow> c)"
    and tl: "\<forall>i<n ?qp. \<forall>j<n ?qp. kkt_mat t i j
            = P ?qp i j + (if i = j then sigma (settings ?s0) else 0)"
    and br: "\<forall>i<m ?qp. \<forall>j<m ?qp. kkt_mat t (n ?qp + i) (n ?qp + j)
            = (if i = j then - (1 / rho_vec t i) else 0)"
    and bl: "\<forall>i<m ?qp. \<forall>j<n ?qp. kkt_mat t (n ?qp + i) j = A ?qp i j"
    and tr: "\<forall>i<n ?qp. \<forall>j<m ?qp. kkt_mat t i (n ?qp + j) = A ?qp j i"
    and sp: "kkt_mat_sparse t = kkt_mat t"
    and ls: "linear_solver t
           = ls_factorize ex_ops (n ?qp + m ?qp) (kkt_mat_sparse t) (linear_solver ?s0)"
    by blast
  have ct: "constr_type ?s0 0 = INEQUALITY_CONSTRAINT"
    by (simp add: solve_setup_fields constr_type_init_apply ex_consts)
  from rv ct c r have rv0: "rho_vec t 0 = 1 / 10 ^ 6" by simp
  from tl have k00: "kkt_mat t 0 0 = 2" by simp
  from bl have k10: "kkt_mat t 1 0 = 1" by simp
  from tr have k01: "kkt_mat t 0 1 = 1" by simp
  from br rv0 have k11: "kkt_mat t 1 1 = - (10 ^ 6)" by simp
  from ls sp have lk: "linear_solver t = kkt_mat t" by simp
  from it r r0 rv0 k00 k10 k01 k11 lk show ?thesis
    by (intro exI [of _ t] exI [of _ False]) simp
qed

section \<open>No validation of the input\<close>





end
